theory Spec2Isabelle
  imports Main
begin

section \<open>Model configuration: lib/ai/providers.ts and the chat model list\<close>

text \<open>
  \<^verbatim>\<open>groq("llama-3.3-70b-versatile")\<close> builds a language model handle from a model name.
  The mock models of \<^verbatim>\<open>./models.mock\<close> are not part of the sources at hand, so they are
  opaque handles carried by the constructor \<open>mock\<close> and passed in as a parameter.
\<close>

datatype language_model = groq string | mock string

text \<open>The four names destructured from \<^verbatim>\<open>require("./models.mock")\<close>.\<close>

record models_mock =
  artifactModel :: language_model
  chatModel :: language_model
  reasoningModel :: language_model
  titleModel :: language_model

text \<open>
  \<^verbatim>\<open>customProvider({ languageModels: {...} })\<close>: the provider keeps the object literal it
  is given. A JavaScript object literal is an ordered list of key/value pairs.
\<close>

record provider =
  languageModels :: "(string \<times> language_model) list"

definition customProvider :: "(string \<times> language_model) list \<Rightarrow> provider" where
  "customProvider lms = \<lparr>languageModels = lms\<rparr>"

text \<open>
  \<^verbatim>\<open>export const myProvider = isTestEnvironment ? (() => {...})() : customProvider({...})\<close>.
  \<open>isTestEnvironment\<close> comes from \<^verbatim>\<open>../constants\<close> and is a parameter here.
\<close>

definition myProvider :: "bool \<Rightarrow> models_mock \<Rightarrow> provider" where
  "myProvider isTestEnvironment mocks =
     (if isTestEnvironment
      then customProvider
        [(''chat-model'', chatModel mocks),
         (''chat-model-reasoning'', reasoningModel mocks),
         (''title-model'', titleModel mocks),
         (''artifact-model'', artifactModel mocks)]
      else customProvider
        [(''chat-model'', groq ''llama-3.3-70b-versatile''),
         (''chat-model-reasoning'', groq ''llama-3.1-70b-versatile''),
         (''title-model'', groq ''llama-3.1-8b-instant''),
         (''artifact-model'', groq ''llama-3.3-70b-versatile'')])"

text \<open>The ids under which a provider registers language models (the keys of the object).\<close>

definition languageModelIds :: "provider \<Rightarrow> string list" where
  "languageModelIds p = map fst (languageModels p)"

text \<open>\<^verbatim>\<open>export const DEFAULT_CHAT_MODEL: string = "chat-model"\<close>\<close>

definition DEFAULT_CHAT_MODEL :: string where
  "DEFAULT_CHAT_MODEL = ''chat-model''"

text \<open>\<^verbatim>\<open>export type ChatModel = { id: string; name: string; description: string }\<close>\<close>

record ChatModel =
  model_id :: string
  name :: string
  description :: string

definition chatModels :: "ChatModel list" where
  "chatModels =
     [\<lparr>model_id = ''chat-model'',
       name = ''Llama 3.3 70B'',
       description = ''Powerful open-source model with excellent quality (FREE)''\<rparr>,
      \<lparr>model_id = ''chat-model-reasoning'',
       name = ''Llama 3.1 70B'',
       description = ''Enhanced reasoning capabilities for complex problems (FREE)''\<rparr>]"

section \<open>Resumable-stream coordination: registry, store and producer\<close>

text \<open>
  The route handlers and the stream transport that implement this layer are not among the
  sources at hand (only the model configuration and the project notes are). The
  definitions of this section follow the specification's description of the Stream
  Registry, the Durable Stream Store and the Generation Producer.
\<close>

text \<open>Modelled from the spec: the terminal status of a Stream (running, completed or
  aborted); the persistence schema that holds it is missing.\<close>

datatype status = running | completed | aborted

text \<open>Modelled from the spec: the closed variant type of chunk kinds (text-delta,
  tool-call, tool-result, reasoning-delta, usage, error, finish); the chunk format of the
  missing transport.\<close>

datatype payload =
    TextDelta string
  | ToolCall string
  | ToolResult string
  | ReasoningDelta string
  | Usage nat
  | Error string
  | Finish

text \<open>Modelled from the spec: a terminal chunk is the chunk type signalling a Stream's
  end, success (finish) or error; the missing transport's end-of-stream test.\<close>

fun terminal :: "payload \<Rightarrow> bool" where
  "terminal (Error _) = True"
| "terminal Finish = True"
| "terminal _ = False"

text \<open>Modelled from the spec: the canonical chunk record
  \<^verbatim>\<open>{streamId, sequence, payload, timestamp}\<close> written by the missing producer.\<close>

record chunk =
  streamId :: nat
  sequence :: nat
  payload :: payload
  timestamp :: nat

text \<open>Modelled from the spec: a Stream with its unique id, its conversation id, its
  creation time and its status; the missing registry's entry.\<close>

record stream =
  stream_id :: nat
  conversationId :: nat
  createdAt :: nat
  status :: status

text \<open>Modelled from the spec: the error taxonomy of the missing coordination layer.\<close>

datatype error = ConflictError | GoneError | UpstreamError | TransientIOError

text \<open>Modelled from the spec: the log the missing Durable Stream Store keeps under one
  Stream id. Retention is finite: \<open>evicted\<close> counts the early chunks already dropped,
  \<open>retained\<close> holds the others in append order.\<close>

record log =
  evicted :: nat
  retained :: "chunk list"

text \<open>Modelled from the spec: the state the missing coordination layer works on: the
  Stream Registry's entries in creation order, the Durable Stream Store keyed by Stream
  id, and the time used for creation times and chunk timestamps.\<close>

record system =
  streams :: "stream list"
  store :: "nat \<Rightarrow> log"
  clock :: nat

text \<open>Modelled from the spec: the state before any Stream was registered (empty
  registry, empty store); the missing layer's start-up.\<close>

definition init :: system where
  "init = \<lparr>streams = [], store = (\<lambda>_. \<lparr>evicted = 0, retained = []\<rparr>), clock = 0\<rparr>"

text \<open>Modelled from the spec: the sequence number the next chunk of a log gets; chunks
  of a Stream are numbered from 0 in append order by the missing producer.\<close>

definition nextSequence :: "log \<Rightarrow> nat" where
  "nextSequence l = evicted l + length (retained l)"

text \<open>Modelled from the spec: whether a Stream of the conversation has status running;
  the check of the missing \<^verbatim>\<open>registerStream\<close>.\<close>

definition hasRunning :: "system \<Rightarrow> nat \<Rightarrow> bool" where
  "hasRunning st cid =
     list_ex (\<lambda>s. conversationId s = cid \<and> status s = running) (streams st)"

text \<open>Modelled from the spec: \<^verbatim>\<open>registerStream(conversationId) -> streamId\<close> of the
  missing Stream Registry creates and records a new Stream id and fails with
  \<open>ConflictError\<close> while a Stream of the conversation is running. The new id is the
  number of Streams recorded so far.\<close>

definition registerStream :: "nat \<Rightarrow> system \<Rightarrow> error + (nat \<times> system)" where
  "registerStream cid st =
     (if hasRunning st cid then Inl ConflictError
      else
        let sid = length (streams st) in
        Inr (sid,
          st\<lparr>streams := streams st @
            [\<lparr>stream_id = sid, conversationId = cid, createdAt = clock st,
              status = running\<rparr>]\<rparr>))"

text \<open>Modelled from the spec: \<^verbatim>\<open>listStreamIds(conversationId)\<close> of the missing Stream
  Registry returns all Stream ids of the conversation in order.\<close>

definition listStreamIds :: "system \<Rightarrow> nat \<Rightarrow> nat list" where
  "listStreamIds st cid =
     map stream_id (filter (\<lambda>s. conversationId s = cid) (streams st))"

text \<open>Modelled from the spec: \<^verbatim>\<open>latestStreamId(conversationId) -> streamId | none\<close> of
  the missing Stream Registry, the most recent Stream of the conversation.\<close>

definition latestStreamId :: "system \<Rightarrow> nat \<Rightarrow> nat option" where
  "latestStreamId st cid =
     (case listStreamIds st cid of [] \<Rightarrow> None | x # xs \<Rightarrow> Some (last (x # xs)))"

text \<open>Modelled from the spec: the status a reader of the missing registry observes for a
  Stream id, none when the id was never registered.\<close>

definition statusOf :: "system \<Rightarrow> nat \<Rightarrow> status option" where
  "statusOf st sid =
     map_option status (find (\<lambda>s. stream_id s = sid) (streams st))"

text \<open>Modelled from the spec: whether the Stream with this id is recorded as running;
  the missing producer works only for such a Stream.\<close>

definition isRunning :: "system \<Rightarrow> nat \<Rightarrow> bool" where
  "isRunning st sid =
     list_ex (\<lambda>s. stream_id s = sid \<and> status s = running) (streams st)"

text \<open>Modelled from the spec: the missing producer's update of a Stream's status.\<close>

definition setStatus :: "nat \<Rightarrow> status \<Rightarrow> system \<Rightarrow> system" where
  "setStatus sid s st =
     st\<lparr>streams := map (\<lambda>x. if stream_id x = sid then x\<lparr>status := s\<rparr> else x) (streams st)\<rparr>"

text \<open>Modelled from the spec: \<^verbatim>\<open>append(streamId, chunk)\<close> of the missing Durable Stream
  Store.\<close>

definition appendChunk :: "nat \<Rightarrow> chunk \<Rightarrow> system \<Rightarrow> system" where
  "appendChunk sid c st =
     st\<lparr>store := (store st)(sid := (store st sid)\<lparr>retained := retained (store st sid) @ [c]\<rparr>)\<rparr>"

text \<open>Modelled from the spec: the missing producer serialises an event to the canonical
  chunk record, with the next sequence number of the Stream and the current time, and
  appends it to the store under the Stream id.\<close>

definition writeChunk :: "nat \<Rightarrow> payload \<Rightarrow> system \<Rightarrow> system" where
  "writeChunk sid p st =
     appendChunk sid
       \<lparr>streamId = sid, sequence = nextSequence (store st sid), payload = p,
        timestamp = clock st\<rparr> st"

text \<open>Modelled from the spec: the events the remote model capability delivers to the
  missing producer: text deltas, tool invocations, tool results, reasoning deltas, usage
  totals and the terminal finish signal.\<close>

datatype generation_event =
    text_delta string
  | tool_invocation string
  | tool_result string
  | reasoning_delta string
  | usage_totals nat
  | finish_signal

text \<open>Modelled from the spec: the ways the missing producer fails: a remote capability
  error, a network failure, or no forward progress for a bounded interval.\<close>

datatype failure = remote_capability_error | network_failure | no_progress_timeout

text \<open>Modelled from the spec: what the missing producer reacts to: an event of the
  remote capability, a failure, or the user's explicit stop action.\<close>

datatype signal = Event generation_event | Failure failure | UserStop

text \<open>Modelled from the spec: the missing producer's conversion of an event into the
  canonical chunk payload.\<close>

fun serialize :: "generation_event \<Rightarrow> payload" where
  "serialize (text_delta s) = TextDelta s"
| "serialize (tool_invocation s) = ToolCall s"
| "serialize (tool_result s) = ToolResult s"
| "serialize (reasoning_delta s) = ReasoningDelta s"
| "serialize (usage_totals n) = Usage n"
| "serialize finish_signal = Finish"

text \<open>Modelled from the spec: one reaction of the missing Generation Producer of a
  running Stream. An event is written as a chunk; the finish signal is written and the
  Stream becomes completed; a failure or a stop writes a terminal error chunk and the
  Stream becomes aborted, with no retry.\<close>

fun handle :: "nat \<Rightarrow> signal \<Rightarrow> system \<Rightarrow> system" where
  "handle sid (Event finish_signal) st = setStatus sid completed (writeChunk sid Finish st)"
| "handle sid (Event e) st = writeChunk sid (serialize e) st"
| "handle sid (Failure f) st = setStatus sid aborted (writeChunk sid (Error ''upstream'') st)"
| "handle sid UserStop st = setStatus sid aborted (writeChunk sid (Error ''aborted'') st)"

text \<open>Modelled from the spec: the missing producer exists for a running Stream only;
  after the terminal chunk no further chunks are valid, so a signal for a Stream that is
  not running changes nothing.\<close>

definition produce :: "nat \<Rightarrow> signal \<Rightarrow> system \<Rightarrow> system" where
  "produce sid u st = (if isRunning st sid then handle sid u st else st)"

text \<open>Modelled from the spec: the missing store's finite retention drops the \<open>n\<close>
  earliest retained chunks of a Stream.\<close>

definition evict :: "nat \<Rightarrow> nat \<Rightarrow> system \<Rightarrow> system" where
  "evict sid n st =
     st\<lparr>store := (store st)(sid :=
        \<lparr>evicted = evicted (store st sid) + min n (length (retained (store st sid))),
         retained = drop n (retained (store st sid))\<rparr>)\<rparr>"

text \<open>Modelled from the spec: the operations of the missing layer that change the
  registry or the store: a registration, a producer reaction, a retention eviction.
  Lookups and replays only read.\<close>

datatype action = Register nat | Produce nat signal | Evict nat nat

text \<open>Modelled from the spec: one operation of the missing layer; a registration that
  fails is surfaced to the caller and leaves the state as it was. Time advances with
  every operation.\<close>

fun step :: "action \<Rightarrow> system \<Rightarrow> system" where
  "step (Register cid) st =
     (case registerStream cid st of
        Inl e \<Rightarrow> st
      | Inr (sid, st') \<Rightarrow> st'\<lparr>clock := Suc (clock st')\<rparr>)"
| "step (Produce sid u) st = (produce sid u st)\<lparr>clock := Suc (clock st)\<rparr>"
| "step (Evict sid n) st = (evict sid n st)\<lparr>clock := Suc (clock st)\<rparr>"

text \<open>Modelled from the spec: a history of operations of the missing layer, applied in
  order.\<close>

fun run :: "action list \<Rightarrow> system \<Rightarrow> system" where
  "run [] st = st"
| "run (a # as) st = run as (step a st)"

text \<open>Modelled from the spec: the number of running Streams the missing registry holds
  for a conversation.\<close>

definition runningCount :: "system \<Rightarrow> nat \<Rightarrow> nat" where
  "runningCount st cid =
     length (filter (\<lambda>s. conversationId s = cid \<and> status s = running) (streams st))"

text \<open>The invariant the proofs below carry through every operation: Stream ids are the
  positions in the registry, the store holds nothing under an id not yet registered, and a
  Stream with a terminal chunk in the store is not running.\<close>

definition wf :: "system \<Rightarrow> bool" where
  "wf st \<longleftrightarrow>
     map stream_id (streams st) = [0..<length (streams st)]
     \<and> (\<forall>sid. length (streams st) \<le> sid \<longrightarrow> retained (store st sid) = [])
     \<and> (\<forall>sid. list_ex (\<lambda>c. terminal (payload c)) (retained (store st sid))
           \<longrightarrow> \<not> isRunning st sid)"

section \<open>Properties of the model configuration\<close>

text \<open>
  C9: the test-environment branch and the production branch of \<open>myProvider\<close> register
  language models under exactly the same four ids, "chat-model", "chat-model-reasoning",
  "title-model" and "artifact-model"; the ids do not depend on \<open>isTestEnvironment\<close>.
\<close>

theorem myProvider_ids_independent_of_environment:
  "languageModelIds (myProvider isTestEnvironment mocks) =
     [''chat-model'', ''chat-model-reasoning'', ''title-model'', ''artifact-model'']
   \<and> languageModelIds (myProvider True mocks) = languageModelIds (myProvider False mocks)
   \<and> distinct (languageModelIds (myProvider isTestEnvironment mocks))"
  by (simp add: languageModelIds_def myProvider_def customProvider_def)

text \<open>
  C10: \<open>DEFAULT_CHAT_MODEL\<close> is "chat-model", the id of the first element of
  \<open>chatModels\<close>; the ids of \<open>chatModels\<close> are pairwise distinct; and they are exactly the
  ids registered by \<open>myProvider\<close> other than "title-model" and "artifact-model".
\<close>

theorem chatModels_default_and_ids:
  "DEFAULT_CHAT_MODEL = ''chat-model''
   \<and> map model_id (take 1 chatModels) = [DEFAULT_CHAT_MODEL]
   \<and> distinct (map model_id chatModels)
   \<and> set (map model_id chatModels) =
       set (languageModelIds (myProvider isTestEnvironment mocks))
         - {''title-model'', ''artifact-model''}"
  by (auto simp add: DEFAULT_CHAT_MODEL_def chatModels_def languageModelIds_def
        myProvider_def customProvider_def)

section \<open>Properties of the Stream Registry and the Generation Producer\<close>

text \<open>A history continued from the state another history reached is the concatenated
  history: \<open>run acts (run acts0 init)\<close> is the state after \<open>acts0 @ acts\<close>.\<close>

lemma run_append: "run (xs @ ys) st = run ys (run xs st)"
  by (induction xs arbitrary: st) simp_all

lemma hasRunning_count: "hasRunning st cid \<longleftrightarrow> runningCount st cid \<noteq> 0"
  by (simp add: hasRunning_def runningCount_def list_ex_iff filter_empty_conv)

lemma streams_writeChunk: "streams (writeChunk sid p st) = streams st"
  by (simp add: writeChunk_def appendChunk_def)

lemma streams_evict: "streams (evict sid n st) = streams st"
  by (simp add: evict_def)

lemma step_Register:
  "step (Register cid) st =
     (if hasRunning st cid then st
      else (st\<lparr>streams := streams st @
              [\<lparr>stream_id = length (streams st), conversationId = cid, createdAt = clock st,
                status = running\<rparr>]\<rparr>)\<lparr>clock := Suc (clock st)\<rparr>)"
  by (simp add: registerStream_def Let_def)

lemma count_setStatus:
  "s \<noteq> running \<Longrightarrow> runningCount (setStatus sid s st) cid \<le> runningCount st cid"
proof -
  assume s: "s \<noteq> running"
  have "length (filter (\<lambda>x. conversationId x = cid \<and> status x = running)
          (map (\<lambda>x. if stream_id x = sid then x\<lparr>status := s\<rparr> else x) xs))
        \<le> length (filter (\<lambda>x. conversationId x = cid \<and> status x = running) xs)" for xs
    using s by (induction xs) auto
  then show ?thesis by (simp add: runningCount_def setStatus_def)
qed

lemma terminal_serialize: "terminal (serialize e) \<longleftrightarrow> e = finish_signal"
  by (cases e) simp_all

text \<open>What a reaction of the producer does to its Stream, case by case.\<close>

lemma handle_shape:
  "\<exists>p s. (handle sid u st = setStatus sid s (writeChunk sid p st) \<and> s \<noteq> running \<and> terminal p)
       \<or> (handle sid u st = writeChunk sid p st \<and> \<not> terminal p)"
proof (cases u)
  case (Event e)
  show ?thesis
  proof (cases "e = finish_signal")
    case True
    with Event have "handle sid u st = setStatus sid completed (writeChunk sid Finish st)"
      by simp
    then show ?thesis by (intro exI [of _ Finish] exI [of _ completed]) simp
  next
    case False
    with Event have "handle sid u st = writeChunk sid (serialize e) st"
      by (cases e) simp_all
    moreover from False have "\<not> terminal (serialize e)" by (simp add: terminal_serialize)
    ultimately show ?thesis by blast
  qed
next
  case (Failure f)
  then have "handle sid u st = setStatus sid aborted (writeChunk sid (Error ''upstream'') st)"
    by simp
  then show ?thesis by (intro exI [of _ "Error ''upstream''"] exI [of _ aborted]) simp
next
  case UserStop
  then have "handle sid u st = setStatus sid aborted (writeChunk sid (Error ''aborted'') st)"
    by simp
  then show ?thesis by (intro exI [of _ "Error ''aborted''"] exI [of _ aborted]) simp
qed

lemma count_handle: "runningCount (handle sid u st) cid \<le> runningCount st cid"
proof -
  from handle_shape [of sid u st] obtain p s where
    "(handle sid u st = setStatus sid s (writeChunk sid p st) \<and> s \<noteq> running \<and> terminal p)
       \<or> (handle sid u st = writeChunk sid p st \<and> \<not> terminal p)" by blast
  then show ?thesis
  proof
    assume h: "handle sid u st = setStatus sid s (writeChunk sid p st) \<and> s \<noteq> running \<and> terminal p"
    then have "runningCount (handle sid u st) cid \<le> runningCount (writeChunk sid p st) cid"
      by (simp add: count_setStatus)
    then show ?thesis by (simp add: runningCount_def streams_writeChunk)
  next
    assume "handle sid u st = writeChunk sid p st \<and> \<not> terminal p"
    then show ?thesis by (simp add: runningCount_def streams_writeChunk)
  qed
qed

lemma count_step: "runningCount st cid \<le> 1 \<Longrightarrow> runningCount (step a st) cid \<le> 1"
proof (cases a)
  case (Register c)
  assume le: "runningCount st cid \<le> 1"
  show ?thesis
  proof (cases "hasRunning st c")
    case True
    with Register le show ?thesis by (simp add: registerStream_def)
  next
    case False
    then have "runningCount st c = 0" by (simp add: hasRunning_count)
    with Register le False show ?thesis
      by (auto simp add: registerStream_def runningCount_def Let_def)
  qed
next
  case (Produce sid u)
  assume le: "runningCount st cid \<le> 1"
  have "runningCount (produce sid u st) cid \<le> runningCount st cid"
    using count_handle [of sid u st cid] by (simp add: produce_def)
  with le Produce show ?thesis by (simp add: runningCount_def)
next
  case (Evict sid n)
  assume le: "runningCount st cid \<le> 1"
  with Evict show ?thesis by (simp add: runningCount_def streams_evict)
qed

lemma count_run: "runningCount st cid \<le> 1 \<Longrightarrow> runningCount (run acts st) cid \<le> 1"
proof (induction acts arbitrary: st)
  case Nil
  then show ?case by simp
next
  case (Cons a acts)
  from Cons.prems have "runningCount (step a st) cid \<le> 1" by (rule count_step)
  then have "runningCount (run acts (step a st)) cid \<le> 1" by (rule Cons.IH)
  then show ?case by simp
qed

lemma count_init: "runningCount init cid = 0"
  by (simp add: runningCount_def init_def)

text \<open>
  C2: in every state the layer can reach, at most one Stream of a conversation has status
  running; \<open>registerStream\<close> fails with \<open>ConflictError\<close> and creates no Stream while a
  Stream of the conversation is running, and otherwise succeeds and records a new running
  Stream.
\<close>

theorem one_running_stream_per_conversation:
  "runningCount (run acts init) cid \<le> 1
   \<and> (hasRunning (run acts init) cid \<longrightarrow>
        registerStream cid (run acts init) = Inl ConflictError
        \<and> streams (step (Register cid) (run acts init)) = streams (run acts init))
   \<and> (\<not> hasRunning (run acts init) cid \<longrightarrow>
        (\<exists>st'. registerStream cid (run acts init) = Inr (length (streams (run acts init)), st')
           \<and> streams st' = streams (run acts init) @
               [\<lparr>stream_id = length (streams (run acts init)), conversationId = cid,
                 createdAt = clock (run acts init), status = running\<rparr>]))"
proof -
  have "runningCount (run acts init) cid \<le> 1"
    by (rule count_run) (simp add: count_init)
  then show ?thesis
    by (simp add: registerStream_def Let_def)
qed

text \<open>The registration that conflicts, and the one that succeeds after the Stream finished.\<close>

theorem one_running_stream_per_conversation_witness:
  "hasRunning (run [Register 7] init) 7
   \<and> registerStream 7 (run [Register 7] init) = Inl ConflictError
   \<and> streams (step (Register 7) (run [Register 7] init)) = streams (run [Register 7] init)
   \<and> \<not> hasRunning (run [Register 7, Produce 0 (Event finish_signal)] init) 7
   \<and> (\<exists>st'. registerStream 7 (run [Register 7, Produce 0 (Event finish_signal)] init) = Inr (1, st'))"
proof -
  have a: "hasRunning (run [Register 7] init) 7"
    by (simp add: hasRunning_def registerStream_def init_def Let_def)
  have b: "\<not> hasRunning (run [Register 7, Produce 0 (Event finish_signal)] init) 7"
    by (simp add: hasRunning_def registerStream_def init_def Let_def produce_def isRunning_def
        setStatus_def writeChunk_def appendChunk_def)
  have c: "length (streams (run [Register 7, Produce 0 (Event finish_signal)] init)) = 1"
    by (simp add: hasRunning_def registerStream_def init_def Let_def produce_def isRunning_def
        setStatus_def writeChunk_def appendChunk_def)
  show ?thesis
    using a b c one_running_stream_per_conversation [of "[Register 7]" 7]
      one_running_stream_per_conversation [of "[Register 7, Produce 0 (Event finish_signal)]" 7]
    by auto
qed


lemma wf_init: "wf init"
  by (simp add: wf_def init_def)

lemma isRunning_registered:
  assumes "map stream_id (streams st) = [0..<length (streams st)]" and "isRunning st sid"
  shows "sid < length (streams st)"
proof -
  from assms(2) obtain x where "x \<in> set (streams st)" and "stream_id x = sid"
    by (auto simp add: isRunning_def list_ex_iff)
  then have "sid \<in> set (map stream_id (streams st))" by auto
  then have "sid \<in> set [0..<length (streams st)]" by (simp only: assms(1))
  then show ?thesis by simp
qed

lemma ids_setStatus: "map stream_id (streams (setStatus sid s st)) = map stream_id (streams st)"
  by (auto simp add: setStatus_def)

lemma length_setStatus: "length (streams (setStatus sid s st)) = length (streams st)"
  by (simp add: setStatus_def)

lemma store_setStatus: "store (setStatus sid s st) = store st"
  by (simp add: setStatus_def)

lemma isRunning_setStatus_same:
  assumes "s \<noteq> running"
  shows "\<not> isRunning (setStatus sid s st) sid"
proof -
  have "\<not> list_ex (\<lambda>x. stream_id x = sid \<and> status x = running)
          (map (\<lambda>x. if stream_id x = sid then x\<lparr>status := s\<rparr> else x) xs)" for xs
    using assms by (induction xs) simp_all
  then show ?thesis by (simp add: isRunning_def setStatus_def)
qed

lemma isRunning_setStatus_other:
  assumes "sid' \<noteq> sid"
  shows "isRunning (setStatus sid s st) sid' = isRunning st sid'"
proof -
  have "list_ex (\<lambda>x. stream_id x = sid' \<and> status x = running)
          (map (\<lambda>x. if stream_id x = sid then x\<lparr>status := s\<rparr> else x) xs)
        = list_ex (\<lambda>x. stream_id x = sid' \<and> status x = running) xs" for xs
    using assms by (induction xs) simp_all
  then show ?thesis by (simp add: isRunning_def setStatus_def)
qed

lemma isRunning_writeChunk: "isRunning (writeChunk sid p st) sid' = isRunning st sid'"
  by (simp add: isRunning_def streams_writeChunk)

lemma retained_writeChunk_same:
  "retained (store (writeChunk sid p st) sid) =
     retained (store st sid) @
       [\<lparr>streamId = sid, sequence = nextSequence (store st sid), payload = p,
         timestamp = clock st\<rparr>]"
  by (simp add: writeChunk_def appendChunk_def)

lemma store_writeChunk_other: "sid' \<noteq> sid \<Longrightarrow> store (writeChunk sid p st) sid' = store st sid'"
  by (simp add: writeChunk_def appendChunk_def)

lemma wf_handle:
  assumes wf: "wf st" and rn: "isRunning st sid"
  shows "wf (handle sid u st)"
proof -
  from wf have ids: "map stream_id (streams st) = [0..<length (streams st)]"
    and fresh: "\<And>i. length (streams st) \<le> i \<Longrightarrow> retained (store st i) = []"
    and tmn: "\<And>i. list_ex (\<lambda>c. terminal (payload c)) (retained (store st i)) \<Longrightarrow> \<not> isRunning st i"
    by (simp_all add: wf_def)
  from ids rn have reg: "sid < length (streams st)" by (rule isRunning_registered)
  from tmn rn have noterm: "\<not> list_ex (\<lambda>c. terminal (payload c)) (retained (store st sid))"
    by blast
  from handle_shape [of sid u st] obtain p s where
    shape: "(handle sid u st = setStatus sid s (writeChunk sid p st) \<and> s \<noteq> running \<and> terminal p)
       \<or> (handle sid u st = writeChunk sid p st \<and> \<not> terminal p)" by blast
  then show ?thesis
  proof
    assume h: "handle sid u st = setStatus sid s (writeChunk sid p st) \<and> s \<noteq> running \<and> terminal p"
    have "\<not> isRunning (handle sid u st) i"
      if "list_ex (\<lambda>c. terminal (payload c)) (retained (store (handle sid u st) i))" for i
    proof (cases "i = sid")
      case True
      with h show ?thesis by (simp add: isRunning_setStatus_same)
    next
      case False
      with that h have "list_ex (\<lambda>c. terminal (payload c)) (retained (store st i))"
        by (simp add: store_setStatus store_writeChunk_other)
      then have "\<not> isRunning st i" by (rule tmn)
      with False h show ?thesis
        by (simp add: isRunning_setStatus_other isRunning_writeChunk)
    qed
    moreover have "retained (store (handle sid u st) i) = []"
      if "length (streams (handle sid u st)) \<le> i" for i
    proof -
      from that h have le: "length (streams st) \<le> i"
        by (simp add: length_setStatus streams_writeChunk)
      with reg have "i \<noteq> sid" by simp
      with h le show ?thesis
        by (simp add: store_setStatus store_writeChunk_other fresh)
    qed
    moreover from h ids have "map stream_id (streams (handle sid u st)) =
        [0..<length (streams (handle sid u st))]"
      by (simp add: ids_setStatus length_setStatus streams_writeChunk)
    ultimately show ?thesis by (simp add: wf_def)
  next
    assume h: "handle sid u st = writeChunk sid p st \<and> \<not> terminal p"
    have "\<not> isRunning (handle sid u st) i"
      if "list_ex (\<lambda>c. terminal (payload c)) (retained (store (handle sid u st) i))" for i
    proof (cases "i = sid")
      case True
      with that h noterm show ?thesis by (simp add: retained_writeChunk_same)
    next
      case False
      with that h have "list_ex (\<lambda>c. terminal (payload c)) (retained (store st i))"
        by (simp add: store_writeChunk_other)
      then have "\<not> isRunning st i" by (rule tmn)
      with h show ?thesis by (simp add: isRunning_writeChunk)
    qed
    moreover have "retained (store (handle sid u st) i) = []"
      if "length (streams (handle sid u st)) \<le> i" for i
    proof -
      from that h have le: "length (streams st) \<le> i" by (simp add: streams_writeChunk)
      with reg have "i \<noteq> sid" by simp
      with h le show ?thesis by (simp add: store_writeChunk_other fresh)
    qed
    moreover from h ids have "map stream_id (streams (handle sid u st)) =
        [0..<length (streams (handle sid u st))]"
      by (simp add: streams_writeChunk)
    ultimately show ?thesis by (simp add: wf_def)
  qed
qed

lemma wf_clock: "wf (st\<lparr>clock := t\<rparr>) = wf st"
  by (simp add: wf_def isRunning_def)

lemma wf_register:
  assumes wf: "wf st"
  shows "wf (st\<lparr>streams := streams st @
            [\<lparr>stream_id = length (streams st), conversationId = cid, createdAt = t,
              status = running\<rparr>]\<rparr>)"
    (is "wf ?st'")
proof -
  from wf have ids: "map stream_id (streams st) = [0..<length (streams st)]"
    and fresh: "\<And>i. length (streams st) \<le> i \<Longrightarrow> retained (store st i) = []"
    and tmn: "\<And>i. list_ex (\<lambda>c. terminal (payload c)) (retained (store st i)) \<Longrightarrow> \<not> isRunning st i"
    by (simp_all add: wf_def)
  have a: "map stream_id (streams ?st') = [0..<length (streams ?st')]"
    using ids by simp
  have b: "retained (store ?st' i) = []" if "length (streams ?st') \<le> i" for i
    using that fresh [of i] by simp
  have c: "\<not> isRunning ?st' i"
    if h: "list_ex (\<lambda>c. terminal (payload c)) (retained (store ?st' i))" for i
  proof -
    from h have h': "list_ex (\<lambda>c. terminal (payload c)) (retained (store st i))" by simp
    then have old: "\<not> isRunning st i" by (rule tmn)
    have "i \<noteq> length (streams st)"
    proof
      assume "i = length (streams st)"
      then have "retained (store st i) = []" using fresh [of i] by simp
      with h' show False by simp
    qed
    with old show ?thesis by (simp add: isRunning_def)
  qed
  from a b c show ?thesis unfolding wf_def by blast
qed

lemma wf_evict:
  assumes wf: "wf st"
  shows "wf (evict sid n st)"
proof -
  from wf have ids: "map stream_id (streams st) = [0..<length (streams st)]"
    and fresh: "\<And>i. length (streams st) \<le> i \<Longrightarrow> retained (store st i) = []"
    and tmn: "\<And>i. list_ex (\<lambda>c. terminal (payload c)) (retained (store st i)) \<Longrightarrow> \<not> isRunning st i"
    by (simp_all add: wf_def)
  have a: "map stream_id (streams (evict sid n st)) = [0..<length (streams (evict sid n st))]"
    using ids by (simp add: streams_evict)
  have b: "retained (store (evict sid n st) i) = []"
    if "length (streams (evict sid n st)) \<le> i" for i
    using that fresh [of i] by (auto simp add: evict_def)
  have c: "\<not> isRunning (evict sid n st) i"
    if h: "list_ex (\<lambda>c. terminal (payload c)) (retained (store (evict sid n st) i))" for i
  proof -
    from h have "list_ex (\<lambda>c. terminal (payload c)) (retained (store st i))"
      by (auto simp add: evict_def list_ex_iff split: if_splits dest: in_set_dropD)
    then have "\<not> isRunning st i" by (rule tmn)
    then show ?thesis by (simp add: isRunning_def streams_evict)
  qed
  from a b c show ?thesis unfolding wf_def by blast
qed

lemma wf_step: "wf st \<Longrightarrow> wf (step a st)"
proof (cases a)
  case (Register cid)
  assume wf: "wf st"
  show ?thesis
  proof (cases "hasRunning st cid")
    case True
    with wf Register show ?thesis by (simp only: step_Register if_True)
  next
    case False
    have "wf ((st\<lparr>streams := streams st @
              [\<lparr>stream_id = length (streams st), conversationId = cid, createdAt = clock st,
                status = running\<rparr>]\<rparr>)\<lparr>clock := Suc (clock st)\<rparr>)"
      using wf by (simp only: wf_clock wf_register)
    with False Register show ?thesis by (simp only: step_Register if_False)
  qed
next
  case (Produce sid u)
  assume wf: "wf st"
  have "wf (produce sid u st)"
    using wf wf_handle [of st sid u] by (simp add: produce_def)
  then have "wf ((produce sid u st)\<lparr>clock := Suc (clock st)\<rparr>)" by (simp only: wf_clock)
  with Produce show ?thesis by (simp only: step.simps)
next
  case (Evict sid n)
  assume wf: "wf st"
  then have "wf (evict sid n st)" by (rule wf_evict)
  then have "wf ((evict sid n st)\<lparr>clock := Suc (clock st)\<rparr>)" by (simp only: wf_clock)
  with Evict show ?thesis by (simp only: step.simps)
qed

lemma wf_run: "wf st \<Longrightarrow> wf (run acts st)"
proof (induction acts arbitrary: st)
  case Nil
  then show ?case by simp
next
  case (Cons a acts)
  from Cons.prems have "wf (step a st)" by (rule wf_step)
  then have "wf (run acts (step a st))" by (rule Cons.IH)
  then show ?case by simp
qed


lemma statusOf_setStatus_other:
  assumes "sid' \<noteq> sid"
  shows "statusOf (setStatus sid s st) sid' = statusOf st sid'"
proof -
  have "map_option status (find (\<lambda>x. stream_id x = sid')
          (map (\<lambda>x. if stream_id x = sid then x\<lparr>status := s\<rparr> else x) xs))
        = map_option status (find (\<lambda>x. stream_id x = sid') xs)" for xs
    using assms by (induction xs) simp_all
  then show ?thesis by (simp add: statusOf_def setStatus_def)
qed

lemma statusOf_writeChunk: "statusOf (writeChunk sid p st) sid' = statusOf st sid'"
  by (simp add: statusOf_def streams_writeChunk)

lemma find_snoc_other: "\<not> P y \<Longrightarrow> find P (xs @ [y]) = find P xs"
  by (induction xs) simp_all

lemma nextSequence_evict: "nextSequence (store (evict sid' n st) sid) = nextSequence (store st sid)"
  by (auto simp add: evict_def nextSequence_def)

lemma stable_handle:
  assumes "sid' \<noteq> sid"
  shows "isRunning (handle sid' u st) sid = isRunning st sid
     \<and> statusOf (handle sid' u st) sid = statusOf st sid
     \<and> store (handle sid' u st) sid = store st sid
     \<and> length (streams (handle sid' u st)) = length (streams st)"
proof -
  from assms have ne: "sid \<noteq> sid'" by simp
  from handle_shape [of sid' u st] obtain p s where
    "handle sid' u st = setStatus sid' s (writeChunk sid' p st)
       \<or> handle sid' u st = writeChunk sid' p st" by blast
  then show ?thesis
  proof
    assume "handle sid' u st = setStatus sid' s (writeChunk sid' p st)"
    with ne show ?thesis
      by (simp add: isRunning_setStatus_other isRunning_writeChunk statusOf_setStatus_other
          statusOf_writeChunk store_setStatus store_writeChunk_other length_setStatus
          streams_writeChunk)
  next
    assume "handle sid' u st = writeChunk sid' p st"
    with ne show ?thesis
      by (simp add: isRunning_writeChunk statusOf_writeChunk store_writeChunk_other
          streams_writeChunk)
  qed
qed

text \<open>What is observed of one Stream: whether it runs, its status, and how many
  chunks were appended to it so far.\<close>

lemma stable_step:
  assumes nr: "\<not> isRunning st sid" and reg: "sid < length (streams st)"
  shows "\<not> isRunning (step a st) sid \<and> sid < length (streams (step a st))
     \<and> statusOf (step a st) sid = statusOf st sid
     \<and> nextSequence (store (step a st) sid) = nextSequence (store st sid)"
proof (cases a)
  case (Register cid)
  show ?thesis
  proof (cases "hasRunning st cid")
    case True
    with Register nr reg show ?thesis by (simp only: step_Register if_True simp_thms)
  next
    case False
    from reg have "stream_id \<lparr>stream_id = length (streams st), conversationId = cid,
        createdAt = clock st, status = running\<rparr> \<noteq> sid" by simp
    then have "find (\<lambda>x. stream_id x = sid) (streams st @
        [\<lparr>stream_id = length (streams st), conversationId = cid,
          createdAt = clock st, status = running\<rparr>]) = find (\<lambda>x. stream_id x = sid) (streams st)"
      by (intro find_snoc_other) simp
    moreover have "step a st = (st\<lparr>streams := streams st @
        [\<lparr>stream_id = length (streams st), conversationId = cid,
          createdAt = clock st, status = running\<rparr>]\<rparr>)\<lparr>clock := Suc (clock st)\<rparr>"
      using Register False by (simp only: step_Register if_False)
    ultimately show ?thesis using nr reg
      by (simp add: isRunning_def statusOf_def)
  qed
next
  case (Produce sid' u)
  show ?thesis
  proof (cases "isRunning st sid'")
    case True
    with nr have "sid' \<noteq> sid" by blast
    from stable_handle [OF this, of u st] True Produce nr reg show ?thesis
      by (simp add: produce_def isRunning_def statusOf_def)
  next
    case False
    with Produce nr reg show ?thesis
      by (simp add: produce_def isRunning_def statusOf_def)
  qed
next
  case (Evict sid' n)
  with nr reg show ?thesis
    using nextSequence_evict [of sid' n st sid]
    by (simp add: isRunning_def statusOf_def streams_evict)
qed

lemma stable_run:
  assumes "\<not> isRunning st sid" and "sid < length (streams st)"
  shows "\<not> isRunning (run acts st) sid \<and> sid < length (streams (run acts st))
     \<and> statusOf (run acts st) sid = statusOf st sid
     \<and> nextSequence (store (run acts st) sid) = nextSequence (store st sid)"
  using assms
proof (induction acts arbitrary: st)
  case Nil
  then show ?case by simp
next
  case (Cons a acts)
  from stable_step [OF Cons.prems, of a]
  have s: "\<not> isRunning (step a st) sid" "sid < length (streams (step a st))"
    and e: "statusOf (step a st) sid = statusOf st sid"
      "nextSequence (store (step a st) sid) = nextSequence (store st sid)"
    by simp_all
  from Cons.IH [OF s] e show ?case by simp
qed

lemma statusOf_ended:
  assumes ids: "map stream_id (streams st) = [0..<length (streams st)]"
    and reg: "sid < length (streams st)" and nr: "\<not> isRunning st sid"
  shows "statusOf st sid = Some completed \<or> statusOf st sid = Some aborted"
proof -
  from reg have "sid \<in> set [0..<length (streams st)]" by simp
  then have "sid \<in> set (map stream_id (streams st))" by (simp only: ids)
  then obtain y where "y \<in> set (streams st)" and "stream_id y = sid" by auto
  then have "find (\<lambda>x. stream_id x = sid) (streams st) \<noteq> None"
    by (auto simp add: find_None_iff)
  then obtain x where f: "find (\<lambda>x. stream_id x = sid) (streams st) = Some x" by blast
  then have "stream_id x = sid" and "x \<in> set (streams st)"
    by (auto simp add: find_Some_iff)
  with nr have "status x \<noteq> running" by (auto simp add: isRunning_def list_ex_iff)
  then have "status x = completed \<or> status x = aborted" by (cases "status x") simp_all
  with f show ?thesis by (simp add: statusOf_def)
qed

text \<open>
  C4: once a terminal chunk of a Stream is in the store, the Stream's status is completed
  or aborted; whatever operations follow, the status stays what it is, the Stream is never
  running again, and no chunk is appended to it (its next sequence number does not move).
\<close>

theorem terminal_stream_never_runs_again:
  assumes "list_ex (\<lambda>c. terminal (payload c)) (retained (store (run acts0 init) sid))"
  shows "(statusOf (run acts0 init) sid = Some completed
           \<or> statusOf (run acts0 init) sid = Some aborted)
     \<and> statusOf (run acts (run acts0 init)) sid = statusOf (run acts0 init) sid
     \<and> \<not> isRunning (run acts (run acts0 init)) sid
     \<and> nextSequence (store (run acts (run acts0 init)) sid)
         = nextSequence (store (run acts0 init) sid)"
proof -
  have wf: "wf (run acts0 init)" by (rule wf_run) (rule wf_init)
  then have ids: "map stream_id (streams (run acts0 init)) = [0..<length (streams (run acts0 init))]"
    and fresh: "\<And>i. length (streams (run acts0 init)) \<le> i \<Longrightarrow> retained (store (run acts0 init) i) = []"
    and tmn: "\<And>i. list_ex (\<lambda>c. terminal (payload c)) (retained (store (run acts0 init) i))
        \<Longrightarrow> \<not> isRunning (run acts0 init) i"
    by (simp_all add: wf_def)
  from assms have nr: "\<not> isRunning (run acts0 init) sid" by (rule tmn)
  have reg: "sid < length (streams (run acts0 init))"
  proof (rule ccontr)
    assume "\<not> sid < length (streams (run acts0 init))"
    then have "retained (store (run acts0 init) sid) = []" by (simp add: fresh)
    with assms show False by simp
  qed
  from statusOf_ended [OF ids reg nr] stable_run [OF nr reg, of acts]
  show ?thesis by simp
qed

text \<open>A Stream aborted after one chunk: later signals and registrations leave it as it is.\<close>

theorem terminal_stream_never_runs_again_witness:
  "list_ex (\<lambda>c. terminal (payload c))
     (retained (store (run [Register 7, Produce 0 (Event (text_delta ''a'')), Produce 0 (Failure network_failure)] init) 0))
   \<and> statusOf (run [Register 7, Produce 0 (Event (text_delta ''a'')), Produce 0 (Failure network_failure)] init) 0 = Some aborted
   \<and> statusOf (run [Produce 0 (Event (text_delta ''b'')), Register 7]
        (run [Register 7, Produce 0 (Event (text_delta ''a'')), Produce 0 (Failure network_failure)] init)) 0 = Some aborted
   \<and> nextSequence (store (run [Produce 0 (Event (text_delta ''b'')), Register 7]
        (run [Register 7, Produce 0 (Event (text_delta ''a'')), Produce 0 (Failure network_failure)] init)) 0) = 2"
proof -
  have h: "list_ex (\<lambda>c. terminal (payload c))
     (retained (store (run [Register 7, Produce 0 (Event (text_delta ''a'')), Produce 0 (Failure network_failure)] init) 0))"
    by (simp add: registerStream_def hasRunning_def init_def Let_def produce_def isRunning_def
        setStatus_def writeChunk_def appendChunk_def)
  have s: "statusOf (run [Register 7, Produce 0 (Event (text_delta ''a'')), Produce 0 (Failure network_failure)] init) 0 = Some aborted"
    by (simp add: registerStream_def hasRunning_def init_def Let_def produce_def isRunning_def
        setStatus_def writeChunk_def appendChunk_def statusOf_def)
  have n: "nextSequence (store (run [Register 7, Produce 0 (Event (text_delta ''a'')), Produce 0 (Failure network_failure)] init) 0) = 2"
    by (simp add: registerStream_def hasRunning_def init_def Let_def produce_def isRunning_def
        setStatus_def writeChunk_def appendChunk_def nextSequence_def)
  from terminal_stream_never_runs_again [OF h, of "[Produce 0 (Event (text_delta ''b'')), Register 7]"] h s n
  show ?thesis by simp
qed

end
